theory Spec2Isabelle
  imports Complex_Main
begin

section \<open>Environment configuration of the NER notebook\<close>

text \<open>
  The configuration cell of \<^verbatim>\<open>name-entity-extraction.ipynb\<close>:
  \<^verbatim>\<open>
  executable_cache_dir = os.getenv("POPLAR_EXECUTABLE_CACHE_DIR", "./exe_cache/")
  share_gradio = bool(os.getenv("GRADIO_SHARE_APP", False))
  \<close>
  The process environment is a map from names to strings. \<^verbatim>\<open>os.getenv\<close> returns the
  string stored under the name, or the default when the name is not set; the default
  here is the Python value \<^verbatim>\<open>False\<close>, so the result is either a string or a bool.
\<close>

type_synonym environ = "string \<rightharpoonup> string"

datatype pyval = PyStr string | PyBool bool

definition getenv :: "environ \<Rightarrow> string \<Rightarrow> pyval \<Rightarrow> pyval" where
  "getenv env name dflt = (case env name of None \<Rightarrow> dflt | Some v \<Rightarrow> PyStr v)"

text \<open>Python truthiness: a string is true when it is not empty.\<close>

fun py_bool :: "pyval \<Rightarrow> bool" where
  "py_bool (PyStr v) = (v \<noteq> [])"
| "py_bool (PyBool b) = b"

definition share_gradio :: "environ \<Rightarrow> bool" where
  "share_gradio env = py_bool (getenv env ''GRADIO_SHARE_APP'' (PyBool False))"

section \<open>Tensor values and half precision\<close>

text \<open>
  The speech notebook allocates its batch with \<^verbatim>\<open>dtype=torch.half\<close>, while the
  feature processor returns float32 tensors. A finite floating-point value is the
  rational number it denotes; a conversion that overflows gives an infinity. NaN and the
  sign of zero are not modelled: audio samples are finite, and no operation below
  produces a NaN from them.
\<close>

datatype fval = Fin rat | PInf | NInf

datatype dtype = Float32 | Half

text \<open>
  Conversion to IEEE 754 binary16 (11 significant bits, exponents \<open>-14 .. 15\<close>,
  largest finite value 65504), rounding to nearest with ties to even, as a copy into a
  half tensor does. \<open>binade a n\<close> is the exponent of the binade of \<open>a\<close>, searched downwards
  from exponent \<open>n - 14\<close> and clamped to the subnormal exponent \<open>-14\<close>.
\<close>

definition round_half_even :: "rat \<Rightarrow> int" where
  "round_half_even r =
     (let f = \<lfloor>r\<rfloor>; d = r - of_int f
      in if d < 1 / 2 then f else if 1 / 2 < d then f + 1 else if even f then f else f + 1)"

fun binade :: "rat \<Rightarrow> nat \<Rightarrow> int" where
  "binade a 0 = - 14"
| "binade a (Suc n) = (if 2 powi (int n - 13) \<le> a then int n - 13 else binade a n)"

definition half_of_rat :: "rat \<Rightarrow> fval" where
  "half_of_rat x =
     (let a = \<bar>x\<bar>;
          e = binade a 29;
          u = 2 powi (e - 10);
          r = of_int (round_half_even (a / u)) * u
      in if 65504 < r then (if 0 < x then PInf else NInf)
         else Fin (if x < 0 then - r else r))"

fun to_half :: "fval \<Rightarrow> fval" where
  "to_half (Fin x) = half_of_rat x"
| "to_half PInf = PInf"
| "to_half NInf = NInf"

text \<open>
  The element conversion of an assignment into a tensor of the given dtype. The values
  written in the notebooks are float32 values already, so storing them as float32
  changes nothing.
\<close>

fun cast_to :: "dtype \<Rightarrow> fval \<Rightarrow> fval" where
  "cast_to Half v = to_half v"
| "cast_to Float32 v = v"

text \<open>
  A two-dimensional tensor: its size metadata, its dtype and its rows.
  \<^verbatim>\<open>torch.zeros([n, m], dtype=dt)\<close> is \<open>zeros n m dt\<close>.
\<close>

record tensor =
  shape :: "nat list"
  dtype :: dtype
  rows :: "fval list list"

definition zeros :: "nat \<Rightarrow> nat \<Rightarrow> dtype \<Rightarrow> tensor" where
  "zeros n m dt = \<lparr>shape = [n, m], dtype = dt, rows = replicate n (replicate m (Fin 0))\<rparr>"

definition signature :: "tensor \<Rightarrow> nat list \<times> dtype" where
  "signature t = (shape t, dtype t)"

datatype error = IndexError | RuntimeError | NameError

text \<open>
  A cell either runs to its end or raises; in both cases it leaves a state behind (an
  exception aborts the cell and keeps what was assigned before it).
\<close>

datatype 's outcome = Done 's | Raised error 's

fun final_state :: "'s outcome \<Rightarrow> 's" where
  "final_state (Done s) = s"
| "final_state (Raised e s) = s"

fun raised :: "'s outcome \<Rightarrow> error option" where
  "raised (Done s) = None"
| "raised (Raised e s) = Some e"

text \<open>
  The slice assignment \<^verbatim>\<open>x[i, :length] = v\<close> of torch. The slice \<^verbatim>\<open>:length\<close> is clamped
  to the row, so the target has \<open>min length (row length)\<close> elements. The source \<open>v\<close> must
  broadcast to the target: it has the same number of elements, or it has exactly one
  element, which is repeated; any other size raises a RuntimeError (size mismatch).
  The elements are converted to the dtype of the target.
\<close>

definition broadcast_to :: "nat \<Rightarrow> fval list \<Rightarrow> error + fval list" where
  "broadcast_to n v =
     (if length v = n then Inr v
      else if length v = 1 then Inr (replicate n (hd v))
      else Inl RuntimeError)"

definition setitem_row_prefix :: "tensor \<Rightarrow> nat \<Rightarrow> nat \<Rightarrow> fval list \<Rightarrow> error + tensor" where
  "setitem_row_prefix t i len v =
     (if i < length (rows t) then
        (let n = min len (length (rows t ! i))
         in case broadcast_to n v of
              Inl e \<Rightarrow> Inl e
            | Inr w \<Rightarrow>
                Inr (t\<lparr>rows := (rows t)[i := map (cast_to (dtype t)) w @ drop n (rows t ! i)]\<rparr>))
      else Inl IndexError)"

section \<open>The speech notebook: state, compilation and batch construction\<close>

text \<open>
  Tensors are objects on a heap, named by their address; a new object is appended, so
  its address is fresh. The notebook's global names are the fields of the state. Names
  that a cell assigns are optional (unbound before the first assignment); a dict such as
  \<^verbatim>\<open>{"input_values": x}\<close> is an association list from keys to addresses.
  The preparation cell sets \<^verbatim>\<open>num_device_iterations = 10\<close>; the cells below read the
  global, so the state carries it and the properties hold for every value of it.
\<close>

type_synonym addr = nat

definition alloc :: "tensor \<Rightarrow> tensor list \<Rightarrow> addr \<times> tensor list" where
  "alloc t h = (length h, h @ [t])"

definition deref :: "tensor list \<Rightarrow> addr \<Rightarrow> tensor option" where
  "deref h a = (if a < length h then Some (h ! a) else None)"

record 'a notebook =
  heap :: "tensor list"
  ds :: "'a list"
  processor :: "'a \<Rightarrow> fval list"
  num_device_iterations :: nat
  max_samples :: nat
  sample_batch :: "(string \<times> addr) list option"
  compiled_for :: "(nat list \<times> dtype) option"
  x_var :: "addr option"
  i_var :: "nat option"
  input_values_var :: "addr option"
  length_var :: "nat option"
  batch_var :: "(string \<times> addr) list option"

text \<open>
  The compilation cell:
  \<^verbatim>\<open>
  max_samples = 400000
  sample_batch = {"input_values": torch.zeros([num_device_iterations, max_samples], dtype=torch.half)}
  inference_model.compile(**sample_batch)
  \<close>
  Of the external compilation only the input signature it specialises the executable
  to is kept (\<open>compiled_for\<close>).
\<close>

definition compile_cell :: "'a notebook \<Rightarrow> 'a notebook" where
  "compile_cell s =
     (let s1 = s\<lparr>max_samples := 400000\<rparr>;
          (a, h) = alloc (zeros (num_device_iterations s1) (max_samples s1) Half) (heap s1);
          s2 = s1\<lparr>heap := h, sample_batch := Some [(''input_values'', a)]\<rparr>
      in s2\<lparr>compiled_for := Some (signature (h ! a))\<rparr>)"

text \<open>
  \<^verbatim>\<open>ds = load_dataset("librispeech_asr", "clean", split="test")\<close>: the fetched split is
  whatever the dataset hub returns, here the argument \<open>d\<close>.
\<close>

definition load_dataset_cell :: "'a list \<Rightarrow> 'a notebook \<Rightarrow> 'a notebook" where
  "load_dataset_cell d s = s\<lparr>ds := d\<rparr>"

text \<open>
  The batch cell:
  \<^verbatim>\<open>
  x = torch.zeros([num_device_iterations, max_samples], dtype=torch.half)

  for i in range(num_device_iterations):
      input_values = processor(
          ds[i]["audio"]["array"], return_tensors="pt", padding="longest"
      ).input_values  # Batch size 1
      length = input_values.size(1)
      x[i, :length] = input_values[0]

  batch = {"input_values": x}
  \<close>
  \<open>processor s a\<close> is the single row of the float32 tensor of shape \<open>[1, n]\<close> that the
  feature processor returns for the audio \<open>a\<close>. \<open>loop_body k\<close> is one iteration with
  \<open>i = k\<close>; \<open>for_range\<close> runs the iterations in order and stops at the first exception.
\<close>

definition loop_body :: "nat \<Rightarrow> 'a notebook \<Rightarrow> 'a notebook outcome" where
  "loop_body k s =
     (let s1 = s\<lparr>i_var := Some k\<rparr>
      in if length (ds s1) \<le> k then Raised IndexError s1
         else
           let v = processor s1 (ds s1 ! k);
               (iv, h) = alloc \<lparr>shape = [1, length v], dtype = Float32, rows = [v]\<rparr> (heap s1);
               s2 = s1\<lparr>heap := h, input_values_var := Some iv\<rparr>;
               len = length v;
               s3 = s2\<lparr>length_var := Some len\<rparr>
           in case x_var s3 of
                None \<Rightarrow> Raised NameError s3
              | Some xa \<Rightarrow>
                  (case deref (heap s3) xa of
                     None \<Rightarrow> Raised NameError s3
                   | Some t \<Rightarrow>
                       (case setitem_row_prefix t k len v of
                          Inl e \<Rightarrow> Raised e s3
                        | Inr t' \<Rightarrow> Done (s3\<lparr>heap := (heap s3)[xa := t']\<rparr>))))"

fun for_range :: "nat list \<Rightarrow> 'a notebook \<Rightarrow> 'a notebook outcome" where
  "for_range [] s = Done s"
| "for_range (k # ks) s =
     (case loop_body k s of
        Raised e s' \<Rightarrow> Raised e s'
      | Done s' \<Rightarrow> for_range ks s')"

definition create_batch :: "'a notebook \<Rightarrow> 'a notebook outcome" where
  "create_batch s =
     (let (xa, h) = alloc (zeros (num_device_iterations s) (max_samples s) Half) (heap s);
          s1 = s\<lparr>heap := h, x_var := Some xa\<rparr>
      in case for_range [0..<num_device_iterations s1] s1 of
           Raised e s2 \<Rightarrow> Raised e s2
         | Done s2 \<Rightarrow>
             (case x_var s2 of
                None \<Rightarrow> Raised NameError s2
              | Some a \<Rightarrow> Done (s2\<lparr>batch_var := Some [(''input_values'', a)]\<rparr>)))"

text \<open>
  \<^verbatim>\<open>output = inference_model(**batch)\<close> submits the tensor under \<^verbatim>\<open>"input_values"\<close>. The
  accelerator runtime is external; what is kept of it is its documented policy (the
  notebook: "If the size is changed later the model will recompile"): the executable is
  reused exactly when the submitted tensor has the signature it was compiled for.
  \<open>None\<close>: nothing can be submitted (the name or the key is missing).
\<close>

definition lookup_tensor :: "'a notebook \<Rightarrow> (string \<times> addr) list option \<Rightarrow> string \<Rightarrow> tensor option" where
  "lookup_tensor s d key =
     (case d of
        None \<Rightarrow> None
      | Some kv \<Rightarrow> (case map_of kv key of None \<Rightarrow> None | Some a \<Rightarrow> deref (heap s) a))"

definition invoke_recompiles :: "'a notebook \<Rightarrow> bool option" where
  "invoke_recompiles s =
     (case lookup_tensor s (batch_var s) ''input_values'' of
        None \<Rightarrow> None
      | Some t \<Rightarrow> Some (compiled_for s \<noteq> Some (signature t)))"

text \<open>
  The functional content of the loop, on the batch tensor alone: what the iterations
  \<open>ks\<close> do to the tensor \<open>t\<close> for the processor \<open>p\<close> and the dataset \<open>d\<close>. The cell is shown
  to compute exactly this on the object bound to \<open>x\<close>.
\<close>

fun fill_tensor :: "('a \<Rightarrow> fval list) \<Rightarrow> 'a list \<Rightarrow> nat list \<Rightarrow> tensor \<Rightarrow> tensor outcome" where
  "fill_tensor p d [] t = Done t"
| "fill_tensor p d (k # ks) t =
     (if length d \<le> k then Raised IndexError t
      else case setitem_row_prefix t k (length (p (d ! k))) (p (d ! k)) of
             Inl e \<Rightarrow> Raised e t
           | Inr t' \<Rightarrow> fill_tensor p d ks t')"

text \<open>The row the cell is meant to produce for a sequence \<open>v\<close> and row length \<open>m\<close>.\<close>

definition padded_row :: "nat \<Rightarrow> fval list \<Rightarrow> fval list" where
  "padded_row m v = map to_half v @ replicate (m - length v) (Fin 0)"

text \<open>What a later cell sees: the tensor bound to \<open>x\<close>, and the tensor the batch dict carries.\<close>

definition x_tensor :: "'a notebook \<Rightarrow> tensor option" where
  "x_tensor s = (case x_var s of None \<Rightarrow> None | Some a \<Rightarrow> deref (heap s) a)"

definition batch_tensor :: "'a notebook \<Rightarrow> tensor option" where
  "batch_tensor s = lookup_tensor s (batch_var s) ''input_values''"

text \<open>
  What an iteration leaves alone, \<open>xa\<close> being the address of the batch tensor: every
  name the loop does not assign, and every object that existed before, other than the
  batch tensor.
\<close>

definition frame_ok :: "addr \<Rightarrow> 'a notebook \<Rightarrow> 'a notebook \<Rightarrow> bool" where
  "frame_ok xa s s' \<longleftrightarrow>
     ds s' = ds s \<and> processor s' = processor s \<and>
     num_device_iterations s' = num_device_iterations s \<and> max_samples s' = max_samples s \<and>
     sample_batch s' = sample_batch s \<and> compiled_for s' = compiled_for s \<and>
     x_var s' = x_var s \<and> batch_var s' = batch_var s \<and>
     length (heap s) \<le> length (heap s') \<and>
     (\<forall>a < length (heap s). a \<noteq> xa \<longrightarrow> heap s' ! a = heap s ! a)"

text \<open>
  A notebook in which only the configuration has run: \<open>n\<close> device iterations, rows of
  \<open>m\<close> samples, a dataset \<open>d\<close> whose entries are already the processed sequences (the
  processor is the identity), an empty heap and no other name bound.
\<close>

definition initial_notebook :: "nat \<Rightarrow> nat \<Rightarrow> fval list list \<Rightarrow> fval list notebook" where
  "initial_notebook n m d =
     \<lparr>heap = [], ds = d, processor = id, num_device_iterations = n, max_samples = m,
      sample_batch = None, compiled_for = None, x_var = None, i_var = None,
      input_values_var = None, length_var = None, batch_var = None\<rparr>"

section \<open>The speech notebook: greedy decoding\<close>

text \<open>
  The decode cell:
  \<^verbatim>\<open>
  logits = output[0]
  predicted_ids = torch.argmax(logits, dim=-1)
  transcription = processor.batch_decode(predicted_ids)
  \<close>
  The logits are a tensor of shape \<open>[N, T, C]\<close>: for each row and each time step, one
  score per class. \<^verbatim>\<open>torch.argmax\<close> returns the index of the first maximal score and
  raises on an empty score vector. \<^verbatim>\<open>processor.batch_decode\<close> belongs to the external
  tokenizer; it is a field of the state, as the processor object is a global of the
  notebook.
\<close>

fun argmax_from :: "nat \<Rightarrow> 'v \<Rightarrow> nat \<Rightarrow> 'v::linorder list \<Rightarrow> nat" where
  "argmax_from best bv j [] = best"
| "argmax_from best bv j (v # vs) =
     (if bv < v then argmax_from j v (Suc j) vs else argmax_from best bv (Suc j) vs)"

definition argmax :: "'v::linorder list \<Rightarrow> error + nat" where
  "argmax vs = (case vs of [] \<Rightarrow> Inl IndexError | v # rest \<Rightarrow> Inr (argmax_from 0 v 1 rest))"

fun map_result :: "('a \<Rightarrow> error + 'b) \<Rightarrow> 'a list \<Rightarrow> error + 'b list" where
  "map_result f [] = Inr []"
| "map_result f (a # as) =
     (case f a of
        Inl e \<Rightarrow> Inl e
      | Inr b \<Rightarrow> (case map_result f as of Inl e \<Rightarrow> Inl e | Inr bs \<Rightarrow> Inr (b # bs)))"

definition argmax_last_dim :: "'v::linorder list list list \<Rightarrow> error + nat list list" where
  "argmax_last_dim logits = map_result (map_result argmax) logits"

record 'v decoder =
  output_var :: "'v list list list list"
  batch_decode :: "nat list list \<Rightarrow> string list"
  logits_var :: "'v list list list option"
  predicted_ids_var :: "nat list list option"
  transcription_var :: "string list option"

definition decode_cell :: "('v::linorder) decoder \<Rightarrow> 'v decoder outcome" where
  "decode_cell s =
     (case output_var s of
        [] \<Rightarrow> Raised IndexError s
      | lg # _ \<Rightarrow>
          (let s1 = s\<lparr>logits_var := Some lg\<rparr>
           in case argmax_last_dim lg of
                Inl e \<Rightarrow> Raised e s1
              | Inr ids \<Rightarrow>
                  (let s2 = s1\<lparr>predicted_ids_var := Some ids\<rparr>
                   in Done (s2\<lparr>transcription_var := Some (batch_decode s2 ids)\<rparr>))))"

text \<open>
  A stand-in tokenizer for concrete runs: every row of ids becomes the string of the
  letters \<open>a\<close>, \<open>b\<close>, \<open>c\<close> for the ids 0, 1, 2 and \<open>?\<close> for any other id.
\<close>

fun letter_of :: "nat \<Rightarrow> char" where
  "letter_of 0 = CHR ''a''"
| "letter_of (Suc 0) = CHR ''b''"
| "letter_of (Suc (Suc 0)) = CHR ''c''"
| "letter_of (Suc (Suc (Suc n))) = CHR ''?''"

definition letters_decode :: "nat list list \<Rightarrow> string list" where
  "letters_decode ids = map (map letter_of) ids"

definition decoder_with :: "rat list list list \<Rightarrow> string list option \<Rightarrow> rat decoder" where
  "decoder_with lg old =
     \<lparr>output_var = [lg], batch_decode = letters_decode, logits_var = None,
      predicted_ids_var = None, transcription_var = old\<rparr>"

section \<open>Releasing the device\<close>

text \<open>
  The last cell of the speech notebook queries the session before it detaches:
  \<^verbatim>\<open>
  if inference_model.isAttachedToDevice():
      inference_model.detachFromDevice()
  \<close>
  The NER notebook detaches each of its three pipelines directly:
  \<^verbatim>\<open>
  ner_pipeline.model.detachFromDevice()
  \<close>
  The session belongs to the external runtime. Kept of it: whether it is attached to
  the device, and a log with one entry per call of \<^verbatim>\<open>detachFromDevice\<close>, recording whether
  the session was attached at the call. The runtime documents that the device must be
  attached before \<^verbatim>\<open>detachFromDevice\<close> is called; a call on an unattached session raises.
\<close>

record session =
  attached :: bool
  detach_calls :: "bool list"

definition isAttachedToDevice :: "session \<Rightarrow> bool" where
  "isAttachedToDevice r = attached r"

definition detachFromDevice :: "session \<Rightarrow> session outcome" where
  "detachFromDevice r =
     (let r1 = r\<lparr>detach_calls := detach_calls r @ [attached r]\<rparr>
      in if attached r then Done (r1\<lparr>attached := False\<rparr>) else Raised RuntimeError r1)"

definition detach_step :: "session \<Rightarrow> session outcome" where
  "detach_step r = (if isAttachedToDevice r then detachFromDevice r else Done r)"

definition ner_detach_step :: "session \<Rightarrow> session outcome" where
  "ner_detach_step r = detachFromDevice r"

section \<open>Properties of the environment configuration\<close>

text \<open>
  Claim C9. The sharing flag is \<^verbatim>\<open>bool(getenv("GRADIO_SHARE_APP", False))\<close>: it is
  False exactly when the variable is unset or set to the empty string, and True for
  every non-empty value of the variable, the strings \<^verbatim>\<open>"0"\<close> and \<^verbatim>\<open>"False"\<close>
  included.
\<close>

theorem share_gradio_truthiness:
  "(\<not> share_gradio env \<longleftrightarrow>
      env ''GRADIO_SHARE_APP'' = None \<or> env ''GRADIO_SHARE_APP'' = Some [])
   \<and> (v \<noteq> [] \<longrightarrow> share_gradio (env(''GRADIO_SHARE_APP'' \<mapsto> v)))
   \<and> share_gradio (env(''GRADIO_SHARE_APP'' \<mapsto> ''0''))
   \<and> share_gradio (env(''GRADIO_SHARE_APP'' \<mapsto> ''False''))"
  by (auto simp: share_gradio_def getenv_def split: option.splits)

theorem share_gradio_truthiness_witness:
  "\<not> share_gradio Map.empty
   \<and> \<not> share_gradio [''GRADIO_SHARE_APP'' \<mapsto> []]
   \<and> share_gradio [''GRADIO_SHARE_APP'' \<mapsto> ''no'']
   \<and> share_gradio [''GRADIO_SHARE_APP'' \<mapsto> ''0'']
   \<and> share_gradio [''GRADIO_SHARE_APP'' \<mapsto> ''False'']"
  using share_gradio_truthiness [of Map.empty "''no''"]
    share_gradio_truthiness [of "[''GRADIO_SHARE_APP'' \<mapsto> []]" "''no''"]
  by simp


section \<open>The batch cell computes the functional fill\<close>

lemma frame_ok_refl: "frame_ok xa s s"
  by (simp add: frame_ok_def)

lemma frame_ok_trans: "frame_ok xa s s1 \<Longrightarrow> frame_ok xa s1 s2 \<Longrightarrow> frame_ok xa s s2"
  by (auto simp: frame_ok_def)

lemma loop_body_refines:
  assumes "x_var s = Some xa" "xa < length (heap s)"
  shows "fill_tensor (processor s) (ds s) [k] (heap s ! xa)
           = map_outcome (\<lambda>s'. heap s' ! xa) (loop_body k s)"
    and "frame_ok xa s (final_state (loop_body k s))"
  using assms
  by (auto simp: loop_body_def alloc_def deref_def frame_ok_def nth_append Let_def
           split: sum.splits)

lemma fill_tensor_step:
  "fill_tensor p d (k # ks) t =
     (case fill_tensor p d [k] t of
        Raised e t' \<Rightarrow> Raised e t'
      | Done t' \<Rightarrow> fill_tensor p d ks t')"
  by (simp split: sum.splits)

lemma for_range_refines:
  assumes "x_var s = Some xa" "xa < length (heap s)"
  shows "fill_tensor (processor s) (ds s) ks (heap s ! xa)
           = map_outcome (\<lambda>s'. heap s' ! xa) (for_range ks s)
         \<and> frame_ok xa s (final_state (for_range ks s))"
  using assms
proof (induction ks arbitrary: s)
  case Nil
  then show ?case by (simp add: frame_ok_refl)
next
  case (Cons k ks)
  note body = loop_body_refines [OF Cons.prems, of k]
  show ?case
  proof (cases "loop_body k s")
    case (Raised e s')
    with body show ?thesis
      by (simp only: fill_tensor_step [of _ _ k ks]) simp
  next
    case (Done s')
    with body have fr: "frame_ok xa s s'"
      and ft: "fill_tensor (processor s) (ds s) [k] (heap s ! xa) = Done (heap s' ! xa)"
      by simp_all
    from fr Cons.prems have bound: "x_var s' = Some xa" "xa < length (heap s')"
      by (auto simp: frame_ok_def)
    from fr have same: "processor s' = processor s" "ds s' = ds s"
      by (auto simp: frame_ok_def)
    from Cons.IH [OF bound]
    have rest: "fill_tensor (processor s) (ds s) ks (heap s' ! xa)
                  = map_outcome (\<lambda>s'. heap s' ! xa) (for_range ks s')"
      and fr': "frame_ok xa s' (final_state (for_range ks s'))"
      by (simp_all add: same)
    show ?thesis
      using Done ft rest fr' fr
      by (simp only: fill_tensor_step [of _ _ k ks]) (auto intro: frame_ok_trans)
  qed
qed

lemma create_batch_refines:
  "fill_tensor (processor s) (ds s) [0..<num_device_iterations s]
       (zeros (num_device_iterations s) (max_samples s) Half) =
     map_outcome (\<lambda>s'. heap s' ! length (heap s)) (create_batch s)"
  and create_batch_frame_ok:
  "frame_ok (length (heap s))
     (s\<lparr>heap := heap s @ [zeros (num_device_iterations s) (max_samples s) Half],
        x_var := Some (length (heap s)),
        batch_var := (case raised (create_batch s) of
                        None \<Rightarrow> Some [(''input_values'', length (heap s))]
                      | Some e \<Rightarrow> batch_var s)\<rparr>)
     (final_state (create_batch s))"
proof -
  let ?xa = "length (heap s)"
  let ?z = "zeros (num_device_iterations s) (max_samples s) Half"
  let ?s1 = "s\<lparr>heap := heap s @ [?z], x_var := Some ?xa\<rparr>"
  let ?ks = "[0..<num_device_iterations s]"
  have a: "x_var ?s1 = Some ?xa" "?xa < length (heap ?s1)" by simp_all
  from for_range_refines [OF a, of ?ks]
  have r: "fill_tensor (processor s) (ds s) ?ks ?z
             = map_outcome (\<lambda>s'. heap s' ! ?xa) (for_range ?ks ?s1)"
    and f: "frame_ok ?xa ?s1 (final_state (for_range ?ks ?s1))"
    by simp_all
  have cb: "create_batch s =
     (case for_range ?ks ?s1 of
        Raised e s2 \<Rightarrow> Raised e s2
      | Done s2 \<Rightarrow> (case x_var s2 of None \<Rightarrow> Raised NameError s2
                      | Some a \<Rightarrow> Done (s2\<lparr>batch_var := Some [(''input_values'', a)]\<rparr>)))"
    by (simp add: create_batch_def alloc_def)
  show "fill_tensor (processor s) (ds s) ?ks ?z =
     map_outcome (\<lambda>s'. heap s' ! ?xa) (create_batch s)"
  proof (cases "for_range ?ks ?s1")
    case (Done s2)
    with f have "x_var s2 = Some ?xa" by (simp add: frame_ok_def)
    with Done r cb show ?thesis by simp
  next
    case (Raised e s2)
    with r cb show ?thesis by simp
  qed
  show "frame_ok ?xa
     (?s1\<lparr>batch_var := (case raised (create_batch s) of
                          None \<Rightarrow> Some [(''input_values'', ?xa)]
                        | Some e \<Rightarrow> batch_var s)\<rparr>)
     (final_state (create_batch s))"
  proof (cases "for_range ?ks ?s1")
    case (Done s2)
    with f have x: "x_var s2 = Some ?xa" by (simp add: frame_ok_def)
    with Done cb f show ?thesis by (simp add: frame_ok_def)
  next
    case (Raised e s2)
    with cb f show ?thesis by (simp add: frame_ok_def)
  qed
qed

lemma create_batch_frame:
  "ds (final_state (create_batch s)) = ds s"
  "processor (final_state (create_batch s)) = processor s"
  "num_device_iterations (final_state (create_batch s)) = num_device_iterations s"
  "max_samples (final_state (create_batch s)) = max_samples s"
  "sample_batch (final_state (create_batch s)) = sample_batch s"
  "compiled_for (final_state (create_batch s)) = compiled_for s"
  "x_var (final_state (create_batch s)) = Some (length (heap s))"
  "length (heap s) < length (heap (final_state (create_batch s)))"
  "a < length (heap s) \<Longrightarrow> heap (final_state (create_batch s)) ! a = heap s ! a"
  "batch_var (final_state (create_batch s)) =
     (case raised (create_batch s) of
        None \<Rightarrow> Some [(''input_values'', length (heap s))]
      | Some e \<Rightarrow> batch_var s)"
  using create_batch_frame_ok [of s]
  by (auto simp: frame_ok_def nth_append)

lemma create_batch_raised:
  "raised (create_batch s) =
     raised (fill_tensor (processor s) (ds s) [0..<num_device_iterations s]
               (zeros (num_device_iterations s) (max_samples s) Half))"
  by (simp only: create_batch_refines) (cases "create_batch s", simp_all)

lemma create_batch_x_tensor:
  "x_tensor (final_state (create_batch s)) =
     Some (final_state (fill_tensor (processor s) (ds s) [0..<num_device_iterations s]
               (zeros (num_device_iterations s) (max_samples s) Half)))"
proof -
  have "heap (final_state (create_batch s)) ! length (heap s) =
      final_state (map_outcome (\<lambda>s'. heap s' ! length (heap s)) (create_batch s))"
    by (cases "create_batch s") simp_all
  then show ?thesis
    using create_batch_frame(7,8) [of s]
    by (simp add: x_tensor_def deref_def create_batch_refines)
qed

lemma create_batch_done_tensor:
  assumes "create_batch s = Done s'"
  shows "batch_tensor s' = Some (heap s' ! length (heap s))"
  using create_batch_frame(8,10) [of s] assms
  by (simp add: batch_tensor_def lookup_tensor_def deref_def)




section \<open>The functional fill\<close>

lemma zeros_fields:
  "shape (zeros n m dt) = [n, m]" "dtype (zeros n m dt) = dt" "length (rows (zeros n m dt)) = n"
  "i < n \<Longrightarrow> rows (zeros n m dt) ! i = replicate m (Fin 0)"
  "i < n \<Longrightarrow> length (rows (zeros n m dt) ! i) = m"
  by (simp_all add: zeros_def)

lemma setitem_fits:
  "i < length (rows t) \<Longrightarrow> length v \<le> length (rows t ! i) \<Longrightarrow>
   setitem_row_prefix t i (length v) v =
     Inr (t\<lparr>rows := (rows t)[i := map (cast_to (dtype t)) v @ drop (length v) (rows t ! i)]\<rparr>)"
  by (simp add: setitem_row_prefix_def broadcast_to_def min_def)

lemma setitem_overflow:
  "i < length (rows t) \<Longrightarrow> length (rows t ! i) < length v \<Longrightarrow> length v \<noteq> 1 \<Longrightarrow>
   setitem_row_prefix t i (length v) v = Inl RuntimeError"
  by (simp add: setitem_row_prefix_def broadcast_to_def min_def)

lemma setitem_error:
  "i < length (rows t) \<Longrightarrow> setitem_row_prefix t i len v = Inl e \<Longrightarrow> e = RuntimeError"
  by (auto simp: setitem_row_prefix_def broadcast_to_def Let_def split: if_splits)

lemma setitem_keeps:
  assumes "setitem_row_prefix t i len v = Inr t'"
  shows "shape t' = shape t" "dtype t' = dtype t" "length (rows t') = length (rows t)"
    "length (rows t' ! j) = length (rows t ! j)" "j \<noteq> i \<Longrightarrow> rows t' ! j = rows t ! j"
proof -
  from assms have i: "i < length (rows t)"
    by (auto simp: setitem_row_prefix_def split: if_splits)
  define n where "n = min len (length (rows t ! i))"
  from assms i obtain w where w: "broadcast_to n v = Inr w"
    and t': "t' = t\<lparr>rows := (rows t)[i := map (cast_to (dtype t)) w @ drop n (rows t ! i)]\<rparr>"
    by (auto simp: setitem_row_prefix_def Let_def n_def split: sum.splits)
  from w have lw: "length w = n"
    by (auto simp: broadcast_to_def split: if_splits)
  show "shape t' = shape t" "dtype t' = dtype t" "length (rows t') = length (rows t)"
    by (simp_all add: t')
  show "j \<noteq> i \<Longrightarrow> rows t' ! j = rows t ! j"
    by (simp add: t')
  show "length (rows t' ! j) = length (rows t ! j)"
  proof (cases "j = i")
    case True
    with i lw show ?thesis by (simp add: t' n_def)
  next
    case False
    then show ?thesis by (simp add: t')
  qed
qed

lemma fill_tensor_keeps:
  "shape (final_state (fill_tensor p d ks t)) = shape t
   \<and> dtype (final_state (fill_tensor p d ks t)) = dtype t
   \<and> length (rows (final_state (fill_tensor p d ks t))) = length (rows t)
   \<and> (\<forall>j. length (rows (final_state (fill_tensor p d ks t)) ! j) = length (rows t ! j))
   \<and> (\<forall>j. j \<notin> set ks \<longrightarrow> rows (final_state (fill_tensor p d ks t)) ! j = rows t ! j)"
proof (induction ks arbitrary: t)
  case Nil
  show ?case by simp
next
  case (Cons k ks)
  show ?case
  proof (cases "length d \<le> k")
    case True
    then show ?thesis by simp
  next
    case False
    show ?thesis
    proof (cases "setitem_row_prefix t k (length (p (d ! k))) (p (d ! k))")
      case (Inl e)
      with False show ?thesis by simp
    next
      case (Inr t1)
      note k1 = setitem_keeps [OF Inr]
      from False Inr have eq: "fill_tensor p d (k # ks) t = fill_tensor p d ks t1"
        by simp
      show ?thesis
        unfolding eq using Cons.IH [of t1] k1 by auto
    qed
  qed
qed

lemma fill_tensor_ok:
  assumes "distinct ks"
    and "\<forall>k\<in>set ks. k < length d \<and> k < length (rows t) \<and> length (p (d ! k)) \<le> length (rows t ! k)"
  shows "\<exists>t'. fill_tensor p d ks t = Done t' \<and>
           (\<forall>k\<in>set ks. rows t' ! k =
               map (cast_to (dtype t)) (p (d ! k)) @ drop (length (p (d ! k))) (rows t ! k))"
  using assms
proof (induction ks arbitrary: t)
  case Nil
  show ?case by simp
next
  case (Cons k ks)
  let ?v = "p (d ! k)"
  let ?t1 = "t\<lparr>rows := (rows t)[k := map (cast_to (dtype t)) ?v @ drop (length ?v) (rows t ! k)]\<rparr>"
  from Cons.prems have k: "k < length d" "k < length (rows t)" "length ?v \<le> length (rows t ! k)"
    and nk: "k \<notin> set ks" and dist: "distinct ks"
    by auto
  have st: "setitem_row_prefix t k (length ?v) ?v = Inr ?t1"
    using k(2,3) by (rule setitem_fits)
  note k1 = setitem_keeps [OF st]
  have pre: "\<forall>j\<in>set ks. j < length d \<and> j < length (rows ?t1) \<and>
               length (p (d ! j)) \<le> length (rows ?t1 ! j)"
    using Cons.prems(2) k1(3,4) by auto
  from Cons.IH [OF dist pre] obtain t' where t': "fill_tensor p d ks ?t1 = Done t'"
    and r: "\<forall>j\<in>set ks. rows t' ! j =
               map (cast_to (dtype ?t1)) (p (d ! j)) @ drop (length (p (d ! j))) (rows ?t1 ! j)"
    by blast
  have eq: "fill_tensor p d (k # ks) t = Done t'"
    using k st t' by simp
  have rk: "rows t' ! k = rows ?t1 ! k"
    using fill_tensor_keeps [of p d ks ?t1] nk t' by simp
  have "rows t' ! j = map (cast_to (dtype t)) (p (d ! j)) @ drop (length (p (d ! j))) (rows t ! j)"
    if "j \<in> set (k # ks)" for j
  proof (cases "j = k")
    case True
    with rk k show ?thesis by simp
  next
    case False
    with that have "j \<in> set ks" by simp
    with r False show ?thesis by simp
  qed
  with eq show ?case by blast
qed

lemma fill_tensor_overflow:
  assumes "\<forall>k\<in>set ks. k < length d \<and> k < length (rows t)"
    and "\<exists>k\<in>set ks. length (rows t ! k) < length (p (d ! k)) \<and> length (p (d ! k)) \<noteq> 1"
  shows "raised (fill_tensor p d ks t) = Some RuntimeError"
  using assms
proof (induction ks arbitrary: t)
  case Nil
  then show ?case by simp
next
  case (Cons k ks)
  from Cons.prems have k: "k < length d" "k < length (rows t)" by auto
  show ?case
  proof (cases "setitem_row_prefix t k (length (p (d ! k))) (p (d ! k))")
    case (Inl e)
    with setitem_error [OF k(2) Inl] k show ?thesis by simp
  next
    case (Inr t1)
    note k1 = setitem_keeps [OF Inr]
    have notk: "\<not> (length (rows t ! k) < length (p (d ! k)) \<and> length (p (d ! k)) \<noteq> 1)"
      using setitem_overflow [OF k(2), of "p (d ! k)"] Inr by auto
    with Cons.prems(2)
    have ex: "\<exists>j\<in>set ks. length (rows t1 ! j) < length (p (d ! j)) \<and> length (p (d ! j)) \<noteq> 1"
      using k1(4) by auto
    have pre: "\<forall>j\<in>set ks. j < length d \<and> j < length (rows t1)"
      using Cons.prems(1) k1(3) by auto
    from Cons.IH [OF pre ex] k Inr show ?thesis by simp
  qed
qed

lemma fill_tensor_overflow_row:
  assumes "k < length (rows t)" and "length (rows t ! k) < length (p (d ! k))"
    and "length (p (d ! k)) \<noteq> 1"
  shows "rows (final_state (fill_tensor p d ks t)) ! k = rows t ! k"
  using assms
proof (induction ks arbitrary: t)
  case Nil
  show ?case by simp
next
  case (Cons j ks)
  show ?case
  proof (cases "length d \<le> j")
    case True
    then show ?thesis by simp
  next
    case False
    show ?thesis
    proof (cases "setitem_row_prefix t j (length (p (d ! j))) (p (d ! j))")
      case (Inl e)
      with False show ?thesis by simp
    next
      case (Inr t1)
      note k1 = setitem_keeps [OF Inr]
      have jk: "j \<noteq> k"
        using setitem_overflow [OF Cons.prems] Inr by auto
      from Cons.IH [of t1] Cons.prems k1(3) k1(4) [of k] k1(5) [of k] jk
      have "rows (final_state (fill_tensor p d ks t1)) ! k = rows t ! k" by simp
      with False Inr show ?thesis by simp
    qed
  qed
qed

section \<open>Half precision on sample values\<close>

text \<open>
  The conversion on values around its boundaries: small integers are kept; ties go to
  the even neighbour; 65504 is the largest finite value and 65520 is the first to
  overflow; \<open>2\<^sup>-\<^sup>2\<^sup>4\<close> is the smallest subnormal and half of it rounds to zero.
\<close>

lemma to_half_samples:
  "to_half (Fin 0) = Fin 0" "to_half (Fin 1) = Fin 1" "to_half (Fin (- 5)) = Fin (- 5)"
  "to_half (Fin 2048) = Fin 2048" "to_half (Fin 2049) = Fin 2048" "to_half (Fin 2051) = Fin 2052"
  "to_half (Fin (2049 / 2048)) = Fin 1" "to_half (Fin (2051 / 2048)) = Fin (513 / 512)"
  "to_half (Fin (13421773 / 134217728)) = Fin (819 / 8192)"
  "to_half (Fin 65504) = Fin 65504" "to_half (Fin 65519) = Fin 65504"
  "to_half (Fin 65520) = PInf" "to_half (Fin (- 70000)) = NInf"
  "to_half (Fin (1 / 16777216)) = Fin (1 / 16777216)" "to_half (Fin (1 / 33554432)) = Fin 0"
  "to_half (Fin (3 / 33554432)) = Fin (1 / 8388608)"
  by code_simp+

section \<open>What the batch cell produces\<close>

lemma create_batch_succeeds:
  assumes "num_device_iterations s \<le> length (ds s)"
    and "\<forall>i < num_device_iterations s. length (processor s (ds s ! i)) \<le> max_samples s"
  shows "\<exists>s'. create_batch s = Done s' \<and>
           batch_tensor s' =
             Some \<lparr>shape = [num_device_iterations s, max_samples s], dtype = Half,
                   rows = map (\<lambda>i. padded_row (max_samples s) (processor s (ds s ! i)))
                            [0..<num_device_iterations s]\<rparr>"
proof -
  let ?n = "num_device_iterations s" and ?m = "max_samples s"
  let ?z = "zeros ?n ?m Half"
  have pre: "\<forall>k\<in>set [0..<?n]. k < length (ds s) \<and> k < length (rows ?z) \<and>
               length (processor s (ds s ! k)) \<le> length (rows ?z ! k)"
    using assms by (simp add: zeros_fields)
  from fill_tensor_ok [OF distinct_upt pre] obtain t'
    where ft: "fill_tensor (processor s) (ds s) [0..<?n] ?z = Done t'"
      and r: "\<forall>k\<in>set [0..<?n]. rows t' ! k =
               map (cast_to (dtype ?z)) (processor s (ds s ! k)) @
               drop (length (processor s (ds s ! k))) (rows ?z ! k)"
    by blast
  from fill_tensor_keeps [of "processor s" "ds s" "[0..<?n]" ?z] ft
  have k: "shape t' = [?n, ?m]" "dtype t' = Half" "length (rows t') = ?n"
    by (simp_all add: zeros_fields)
  have rows: "rows t' = map (\<lambda>i. padded_row ?m (processor s (ds s ! i))) [0..<?n]"
  proof (rule nth_equalityI)
    show "length (rows t') = length (map (\<lambda>i. padded_row ?m (processor s (ds s ! i))) [0..<?n])"
      using k by simp
  next
    fix i assume "i < length (rows t')"
    with k have i: "i < ?n" by simp
    have c: "cast_to Half = to_half" by (rule ext) simp
    from r i have "rows t' ! i = map to_half (processor s (ds s ! i)) @
               drop (length (processor s (ds s ! i))) (replicate ?m (Fin 0))"
      by (simp add: zeros_fields c)
    with i show "rows t' ! i = map (\<lambda>i. padded_row ?m (processor s (ds s ! i))) [0..<?n] ! i"
      by (simp add: padded_row_def)
  qed
  have t': "t' = \<lparr>shape = [?n, ?m], dtype = Half,
              rows = map (\<lambda>i. padded_row ?m (processor s (ds s ! i))) [0..<?n]\<rparr>"
    using k rows by (cases t') simp
  from ft obtain s' where d: "create_batch s = Done s'" and h: "heap s' ! length (heap s) = t'"
    by (simp only: create_batch_refines) (cases "create_batch s", auto)
  from create_batch_done_tensor [OF d] h t' d show ?thesis by simp
qed

lemma padded_row_parts:
  assumes "length v \<le> m"
  shows "length (padded_row m v) = m"
    and "take (length v) (padded_row m v) = map to_half v"
    and "drop (length v) (padded_row m v) = replicate (m - length v) (Fin 0)"
    and "(\<forall>a\<in>set v. to_half a = a) \<Longrightarrow> take (length v) (padded_row m v) = v"
  using assms by (simp_all add: padded_row_def map_idI)

lemma create_batch_overflow:
  assumes "num_device_iterations s \<le> length (ds s)"
    and "k < num_device_iterations s"
    and "max_samples s < length (processor s (ds s ! k))"
    and "length (processor s (ds s ! k)) \<noteq> 1"
  shows "raised (create_batch s) = Some RuntimeError"
proof -
  let ?n = "num_device_iterations s" and ?m = "max_samples s"
  let ?z = "zeros ?n ?m Half"
  have pre: "\<forall>j\<in>set [0..<?n]. j < length (ds s) \<and> j < length (rows ?z)"
    using assms(1) by (simp add: zeros_fields)
  have ex: "\<exists>j\<in>set [0..<?n]. length (rows ?z ! j) < length (processor s (ds s ! j)) \<and>
              length (processor s (ds s ! j)) \<noteq> 1"
    using assms(2-4) by (auto simp: zeros_fields intro!: bexI [of _ k])
  from fill_tensor_overflow [OF pre ex] show ?thesis
    by (simp add: create_batch_raised)
qed

text \<open>
  An overflowing sequence leaves its row as allocated: the assignment raises before it
  writes, and no other iteration touches the row.
\<close>

lemma create_batch_overflow_row:
  assumes "k < num_device_iterations s"
    and "max_samples s < length (processor s (ds s ! k))"
    and "length (processor s (ds s ! k)) \<noteq> 1"
  shows "\<exists>t. x_tensor (final_state (create_batch s)) = Some t \<and>
           rows t ! k = replicate (max_samples s) (Fin 0)"
  using fill_tensor_overflow_row [of k "zeros (num_device_iterations s) (max_samples s) Half"
      "processor s" "ds s" "[0..<num_device_iterations s]"] assms
  by (simp add: create_batch_x_tensor zeros_fields)









lemma x_tensor_signature:
  "\<exists>t. x_tensor (final_state (create_batch s)) = Some t \<and>
       shape t = [num_device_iterations s, max_samples s] \<and> dtype t = Half"
  using fill_tensor_keeps [of "processor s" "ds s" "[0..<num_device_iterations s]"
      "zeros (num_device_iterations s) (max_samples s) Half"]
  by (simp add: create_batch_x_tensor zeros_fields)


section \<open>Properties of the batch builder\<close>

text \<open>
  Claim C1, as the code has it. For every count, every row length and every dataset
  whose first \<open>num_device_iterations\<close> sequences are no longer than \<open>max_samples\<close>, the
  cell runs to its end and the batch has shape \<open>[num_device_iterations, max_samples]\<close>
  and dtype half. Row \<open>i\<close> starts with the entries of sequence \<open>i\<close> converted to half
  precision, in order, and every remaining entry is zero. The first entries equal the
  sequence itself when each of its values is representable in half precision.
\<close>

theorem batch_rows_rounded_and_padded:
  assumes "num_device_iterations s \<le> length (ds s)"
    and "\<forall>i < num_device_iterations s. length (processor s (ds s ! i)) \<le> max_samples s"
  shows "\<exists>s' t. create_batch s = Done s' \<and> batch_tensor s' = Some t \<and>
           shape t = [num_device_iterations s, max_samples s] \<and> dtype t = Half \<and>
           length (rows t) = num_device_iterations s \<and>
           (\<forall>i < num_device_iterations s.
              length (rows t ! i) = max_samples s \<and>
              take (length (processor s (ds s ! i))) (rows t ! i)
                = map to_half (processor s (ds s ! i)) \<and>
              drop (length (processor s (ds s ! i))) (rows t ! i)
                = replicate (max_samples s - length (processor s (ds s ! i))) (Fin 0) \<and>
              ((\<forall>v \<in> set (processor s (ds s ! i)). to_half v = v) \<longrightarrow>
                 take (length (processor s (ds s ! i))) (rows t ! i) = processor s (ds s ! i)))"
proof -
  from create_batch_succeeds [OF assms] obtain s' where
    d: "create_batch s = Done s'" and
    t: "batch_tensor s' =
          Some \<lparr>shape = [num_device_iterations s, max_samples s], dtype = Half,
                rows = map (\<lambda>i. padded_row (max_samples s) (processor s (ds s ! i)))
                         [0..<num_device_iterations s]\<rparr>"
    by blast
  show ?thesis
    using d t assms(2) by (auto simp: padded_row_parts(1-3) intro!: map_idI)
qed

theorem batch_rows_rounded_and_padded_witness:
  "\<exists>s' t. create_batch (initial_notebook 2 3 [[Fin (1 / 2)], [Fin (2049 / 2048), Fin 3, Fin 7]]) = Done s'
     \<and> batch_tensor s' = Some t \<and> shape t = [2, 3]
     \<and> take 1 (rows t ! 0) = [Fin (1 / 2)] \<and> drop 1 (rows t ! 0) = [Fin 0, Fin 0]
     \<and> take 3 (rows t ! 1) = [Fin 1, Fin 3, Fin 7] \<and> drop 3 (rows t ! 1) = []"
proof -
  let ?s = "initial_notebook 2 3 [[Fin (1 / 2)], [Fin (2049 / 2048), Fin 3, Fin 7]]"
  have n: "num_device_iterations ?s \<le> length (ds ?s)"
    by (simp add: initial_notebook_def)
  have l: "\<forall>i < num_device_iterations ?s. length (processor ?s (ds ?s ! i)) \<le> max_samples ?s"
    by (simp add: initial_notebook_def less_Suc_eq numeral_2_eq_2)
  have h: "map to_half [Fin (1 / 2)] = [Fin (1 / 2)]"
    "map to_half [Fin (2049 / 2048), Fin 3, Fin 7] = [Fin 1, Fin 3, Fin 7]"
    by code_simp+
  from batch_rows_rounded_and_padded [OF n l] obtain s' t where
    "create_batch ?s = Done s'" "batch_tensor s' = Some t" "shape t = [2, 3]"
    "take 1 (rows t ! 0) = map to_half [Fin (1 / 2)]" "drop 1 (rows t ! 0) = [Fin 0, Fin 0]"
    "take 3 (rows t ! 1) = map to_half [Fin (2049 / 2048), Fin 3, Fin 7]" "drop 3 (rows t ! 1) = []"
    by (fastforce simp: initial_notebook_def numeral_2_eq_2 numeral_3_eq_3)
  with h show ?thesis by metis
qed

text \<open>
  The claim as the spec words it (the first entries of the row equal the sequence
  exactly) fails for a value that half precision cannot represent: the float32 value
  \<open>1 + 2\<^sup>-\<^sup>1\<^sup>1\<close> is stored as 1.
\<close>

theorem batch_rows_exact_counterexample:
  "raised (create_batch (initial_notebook 1 2 [[Fin (2049 / 2048)]])) = None
   \<and> processor (initial_notebook 1 2 [[Fin (2049 / 2048)]])
       (ds (initial_notebook 1 2 [[Fin (2049 / 2048)]]) ! 0) = [Fin (2049 / 2048)]
   \<and> batch_tensor (final_state (create_batch (initial_notebook 1 2 [[Fin (2049 / 2048)]])))
       = Some \<lparr>shape = [1, 2], dtype = Half, rows = [[Fin 1, Fin 0]]\<rparr>
   \<and> take 1 [Fin 1, Fin 0] \<noteq> [Fin (2049 / 2048)]"
  by code_simp

text \<open>
  Claim C2, as the code has it. When a sequence among the first
  \<open>num_device_iterations\<close> is longer than \<open>max_samples\<close> (and is not a single element,
  which broadcasts), the slice assignment raises a RuntimeError: the cell aborts, binds
  no batch, and truncates nothing, so the row of that sequence in \<open>x\<close> is still all
  zeros and holds no element of the sequence.
\<close>

theorem overflow_raises:
  assumes "num_device_iterations s \<le> length (ds s)"
    and "k < num_device_iterations s"
    and "max_samples s < length (processor s (ds s ! k))"
    and "length (processor s (ds s ! k)) \<noteq> 1"
  shows "raised (create_batch s) = Some RuntimeError
         \<and> batch_var (final_state (create_batch s)) = batch_var s
         \<and> (\<exists>t. x_tensor (final_state (create_batch s)) = Some t
                \<and> rows t ! k = replicate (max_samples s) (Fin 0))"
  using create_batch_overflow [OF assms] create_batch_frame(10) [of s]
    create_batch_overflow_row [OF assms(2-4)]
  by simp

theorem overflow_raises_witness:
  "raised (create_batch (initial_notebook 2 2 [[Fin 1], [Fin 1, Fin 2, Fin 3]])) = Some RuntimeError
   \<and> batch_var (final_state (create_batch (initial_notebook 2 2 [[Fin 1], [Fin 1, Fin 2, Fin 3]])))
       = None
   \<and> (\<exists>t. x_tensor (final_state
              (create_batch (initial_notebook 2 2 [[Fin 1], [Fin 1, Fin 2, Fin 3]]))) = Some t
          \<and> rows t ! 1 = [Fin 0, Fin 0])"
  using overflow_raises [of "initial_notebook 2 2 [[Fin 1], [Fin 1, Fin 2, Fin 3]]" 1]
  by (simp add: initial_notebook_def numeral_2_eq_2)

text \<open>
  The one overflowing length that does not raise: a single element broadcasts to the
  clamped slice, which is empty when \<open>max_samples = 0\<close>.
\<close>

lemma single_element_broadcasts:
  "raised (create_batch (initial_notebook 1 0 [[Fin 5]])) = None"
  "batch_tensor (final_state (create_batch (initial_notebook 1 0 [[Fin 5]])))
     = Some \<lparr>shape = [1, 0], dtype = Half, rows = [[]]\<rparr>"
  by code_simp+

text \<open>
  The claim as the spec words it (the sequence is truncated silently and the builder
  completes) fails: the run below raises, and the row is still all zeros.
\<close>

theorem overflow_truncation_counterexample:
  "raised (create_batch (initial_notebook 1 2 [[Fin 1, Fin 2, Fin 3]])) = Some RuntimeError
   \<and> batch_tensor (final_state (create_batch (initial_notebook 1 2 [[Fin 1, Fin 2, Fin 3]]))) = None
   \<and> x_tensor (final_state (create_batch (initial_notebook 1 2 [[Fin 1, Fin 2, Fin 3]])))
       = Some \<lparr>shape = [1, 2], dtype = Half, rows = [[Fin 0, Fin 0]]\<rparr>"
  by code_simp

text \<open>
  Claim C4. With two iterations, rows of five samples and the sequences \<open>[1, 2, 3]\<close> and
  \<open>[4, 5]\<close>, the batch is \<open>[[1, 2, 3, 0, 0], [4, 5, 0, 0, 0]]\<close>.
\<close>

theorem scenario_batch:
  "raised (create_batch (initial_notebook 2 5 [[Fin 1, Fin 2, Fin 3], [Fin 4, Fin 5]])) = None
   \<and> batch_tensor (final_state
         (create_batch (initial_notebook 2 5 [[Fin 1, Fin 2, Fin 3], [Fin 4, Fin 5]])))
       = Some \<lparr>shape = [2, 5], dtype = Half,
               rows = [[Fin 1, Fin 2, Fin 3, Fin 0, Fin 0],
                       [Fin 4, Fin 5, Fin 0, Fin 0, Fin 0]]\<rparr>"
  by code_simp

text \<open>
  Claim C5, as the code has it. When no sequence is too long and sequence \<open>i\<close> has
  exactly \<open>max_samples\<close> elements, row \<open>i\<close> of the batch is the sequence converted to half
  precision, element by element and in order: it fills the whole row and no padding
  entry follows. The row is the sequence itself when each of its values is representable
  in half precision.
\<close>

theorem full_row_no_padding:
  assumes "num_device_iterations s \<le> length (ds s)"
    and "\<forall>j < num_device_iterations s. length (processor s (ds s ! j)) \<le> max_samples s"
    and "i < num_device_iterations s"
    and "length (processor s (ds s ! i)) = max_samples s"
  shows "\<exists>s' t. create_batch s = Done s' \<and> batch_tensor s' = Some t \<and>
           rows t ! i = map to_half (processor s (ds s ! i)) \<and>
           length (rows t ! i) = length (processor s (ds s ! i)) \<and>
           ((\<forall>v \<in> set (processor s (ds s ! i)). to_half v = v) \<longrightarrow>
              rows t ! i = processor s (ds s ! i))"
proof -
  from create_batch_succeeds [OF assms(1,2)] obtain s' where
    d: "create_batch s = Done s'" and
    t: "batch_tensor s' =
          Some \<lparr>shape = [num_device_iterations s, max_samples s], dtype = Half,
                rows = map (\<lambda>i. padded_row (max_samples s) (processor s (ds s ! i)))
                         [0..<num_device_iterations s]\<rparr>"
    by blast
  have "padded_row (max_samples s) (processor s (ds s ! i)) = map to_half (processor s (ds s ! i))"
    using assms(4) by (simp add: padded_row_def)
  with d t assms(3) show ?thesis
    by (auto simp: map_idI)
qed

theorem full_row_no_padding_witness:
  "\<exists>s' t. create_batch (initial_notebook 2 2 [[Fin 5], [Fin 3, Fin (1 / 4)]]) = Done s'
     \<and> batch_tensor s' = Some t \<and> rows t ! 1 = [Fin 3, Fin (1 / 4)]"
proof -
  let ?s = "initial_notebook 2 2 [[Fin 5], [Fin 3, Fin (1 / 4)]]"
  have n: "num_device_iterations ?s \<le> length (ds ?s)"
    by (simp add: initial_notebook_def)
  have l: "\<forall>j < num_device_iterations ?s. length (processor ?s (ds ?s ! j)) \<le> max_samples ?s"
    by (simp add: initial_notebook_def less_Suc_eq numeral_2_eq_2)
  have i: "1 < num_device_iterations ?s"
    by (simp add: initial_notebook_def)
  have f: "length (processor ?s (ds ?s ! 1)) = max_samples ?s"
    by (simp add: initial_notebook_def)
  have h: "map to_half [Fin 3, Fin (1 / 4)] = [Fin 3, Fin (1 / 4)]"
    by code_simp
  from full_row_no_padding [OF n l i f] obtain s' t where
    "create_batch ?s = Done s'" "batch_tensor s' = Some t"
    "rows t ! 1 = map to_half [Fin 3, Fin (1 / 4)]"
    by (fastforce simp: initial_notebook_def)
  with h show ?thesis by metis
qed

text \<open>
  The claim as the spec words it (the row consists of the sequence's elements) fails
  for a full row with a value that half precision cannot represent: the float32 value
  \<open>1 + 2\<^sup>-\<^sup>1\<^sup>2\<close> is stored as 1.
\<close>

theorem full_row_exact_counterexample:
  "raised (create_batch (initial_notebook 1 2 [[Fin (4097 / 4096), Fin 2]])) = None
   \<and> processor (initial_notebook 1 2 [[Fin (4097 / 4096), Fin 2]])
       (ds (initial_notebook 1 2 [[Fin (4097 / 4096), Fin 2]]) ! 0) = [Fin (4097 / 4096), Fin 2]
   \<and> batch_tensor (final_state (create_batch (initial_notebook 1 2 [[Fin (4097 / 4096), Fin 2]])))
       = Some \<lparr>shape = [1, 2], dtype = Half, rows = [[Fin 1, Fin 2]]\<rparr>
   \<and> [Fin 1, Fin 2] \<noteq> [Fin (4097 / 4096), Fin 2]"
  by code_simp



text \<open>
  Claim C6. Two applications of the builder to the same inputs (the same dataset,
  processor, count and row length) give the same outcome and the same batch tensor,
  whatever else differs between the two states: the heap, the addresses handed out, or
  the names left bound by an earlier run. On success the tensor in the batch dict is
  that tensor.
\<close>

theorem create_batch_deterministic:
  assumes "ds s1 = ds s2" and "processor s1 = processor s2"
    and "num_device_iterations s1 = num_device_iterations s2"
    and "max_samples s1 = max_samples s2"
  shows "raised (create_batch s1) = raised (create_batch s2)
     \<and> x_tensor (final_state (create_batch s1)) = x_tensor (final_state (create_batch s2))
     \<and> (raised (create_batch s1) = None \<longrightarrow>
          batch_tensor (final_state (create_batch s1)) = x_tensor (final_state (create_batch s1))
          \<and> batch_tensor (final_state (create_batch s1))
              = batch_tensor (final_state (create_batch s2)))"
proof -
  have done_batch: "batch_tensor (final_state (create_batch s)) = x_tensor (final_state (create_batch s))"
    if "raised (create_batch s) = None" for s :: "'a notebook"
  proof -
    from that obtain s' where d: "create_batch s = Done s'"
      by (cases "create_batch s") simp_all
    from create_batch_done_tensor [OF d] create_batch_frame(7,8) [of s] d
    show ?thesis by (simp add: x_tensor_def deref_def)
  qed
  have r: "raised (create_batch s1) = raised (create_batch s2)"
    by (simp add: create_batch_raised assms)
  have x: "x_tensor (final_state (create_batch s1)) = x_tensor (final_state (create_batch s2))"
    by (simp add: create_batch_x_tensor assms)
  from r x done_batch [of s1] done_batch [of s2] show ?thesis by simp
qed

theorem create_batch_deterministic_witness:
  "raised (create_batch (final_state (create_batch (initial_notebook 2 3 [[Fin (1 / 3)], [Fin 1, Fin 2]]))))
     = raised (create_batch (initial_notebook 2 3 [[Fin (1 / 3)], [Fin 1, Fin 2]]))
   \<and> x_tensor (final_state (create_batch
         (final_state (create_batch (initial_notebook 2 3 [[Fin (1 / 3)], [Fin 1, Fin 2]])))))
     = x_tensor (final_state (create_batch (initial_notebook 2 3 [[Fin (1 / 3)], [Fin 1, Fin 2]])))
   \<and> x_var (final_state (create_batch
         (final_state (create_batch (initial_notebook 2 3 [[Fin (1 / 3)], [Fin 1, Fin 2]])))))
     \<noteq> x_var (final_state (create_batch (initial_notebook 2 3 [[Fin (1 / 3)], [Fin 1, Fin 2]])))"
proof -
  let ?a = "initial_notebook 2 3 [[Fin (1 / 3)], [Fin 1, Fin 2]]"
  have fresh: "x_var (final_state (create_batch (final_state (create_batch ?a))))
      \<noteq> x_var (final_state (create_batch ?a))"
    using create_batch_frame(8) [of ?a] by (simp add: create_batch_frame(7))
  from create_batch_deterministic [of "final_state (create_batch ?a)" ?a] fresh
  show ?thesis by (simp add: create_batch_frame)
qed




text \<open>
  Claim C10. After the compilation cell and the dataset cell, a batch that the batch
  cell builds has the shape of the sample batch, \<open>[num_device_iterations, max_samples]\<close>
  with \<open>max_samples = 400000\<close>, and its dtype, half: it has the signature the model was
  compiled for, so invoking the model on it does not recompile.
\<close>

theorem batch_matches_compiled_signature:
  assumes "create_batch (load_dataset_cell d (compile_cell s)) = Done s'"
  shows "\<exists>ts tb. lookup_tensor s' (sample_batch s') ''input_values'' = Some ts
           \<and> batch_tensor s' = Some tb
           \<and> shape ts = [num_device_iterations s, 400000] \<and> shape tb = shape ts
           \<and> dtype ts = Half \<and> dtype tb = Half
           \<and> invoke_recompiles s' = Some False"
proof -
  let ?c = "load_dataset_cell d (compile_cell s)"
  let ?z = "zeros (num_device_iterations s) 400000 Half"
  have c: "heap ?c = heap s @ [?z]" "sample_batch ?c = Some [(''input_values'', length (heap s))]"
    "compiled_for ?c = Some ([num_device_iterations s, 400000], Half)"
    "num_device_iterations ?c = num_device_iterations s" "max_samples ?c = 400000"
    by (simp_all add: load_dataset_cell_def compile_cell_def alloc_def signature_def zeros_fields)
  from assms have s': "s' = final_state (create_batch ?c)" by simp
  have "heap s' ! length (heap s) = heap ?c ! length (heap s)"
    unfolding s' by (rule create_batch_frame(9)) (simp add: c)
  then have smp: "heap s' ! length (heap s) = ?z" by (simp add: c)
  have len: "length (heap s) < length (heap s')"
    using create_batch_frame(8) [of ?c] by (simp add: s' c)
  have ts: "lookup_tensor s' (sample_batch s') ''input_values'' = Some ?z"
    using smp len by (simp add: s' create_batch_frame(5) c lookup_tensor_def deref_def)
  from x_tensor_signature [of ?c] obtain tb where
    tb: "x_tensor s' = Some tb" "shape tb = [num_device_iterations s, 400000]" "dtype tb = Half"
    by (auto simp: s' c)
  have bt: "batch_tensor s' = Some tb"
    using create_batch_done_tensor [OF assms] create_batch_frame(7,8) [of ?c] tb(1)
    by (simp add: s' x_tensor_def deref_def)
  have "compiled_for s' = Some (signature tb)"
    by (simp add: s' create_batch_frame(6) c signature_def tb)
  with bt have "invoke_recompiles s' = Some False"
    by (simp add: invoke_recompiles_def batch_tensor_def)
  with ts bt tb show ?thesis by (simp add: zeros_fields)
qed

theorem batch_matches_compiled_signature_witness:
  "\<exists>s'. create_batch (load_dataset_cell [[Fin 1], [Fin 2, Fin 3]]
            (compile_cell (initial_notebook 2 7 []))) = Done s'
     \<and> invoke_recompiles s' = Some False"
proof -
  let ?c = "load_dataset_cell [[Fin 1], [Fin 2, Fin 3]] (compile_cell (initial_notebook 2 7 []))"
  have c: "ds ?c = [[Fin 1], [Fin 2, Fin 3]]" "processor ?c = id"
    "num_device_iterations ?c = 2" "max_samples ?c = 400000"
    by (simp_all add: load_dataset_cell_def compile_cell_def alloc_def initial_notebook_def)
  have n: "num_device_iterations ?c \<le> length (ds ?c)"
    by (simp add: c)
  have l: "\<forall>i < num_device_iterations ?c. length (processor ?c (ds ?c ! i)) \<le> max_samples ?c"
    unfolding c by (simp add: less_Suc_eq numeral_2_eq_2)
  from create_batch_succeeds [OF n l] obtain s' where d: "create_batch ?c = Done s'"
    by blast
  from batch_matches_compiled_signature [OF d] d show ?thesis by blast
qed


section \<open>Properties of greedy decoding\<close>

text \<open>
  \<open>argmax\<close> picks the first position of the largest score: ties go to the lowest index,
  so the choice depends on the scores alone.
\<close>

lemma argmax_from_first_max:
  assumes "drop j xs = vs" and "j \<le> length xs" and "best < j" and "bv = xs ! best"
    and "\<forall>i<j. xs ! i \<le> bv" and "\<forall>i<best. xs ! i < bv"
  shows "argmax_from best bv j vs < length xs
     \<and> (\<forall>i<length xs. xs ! i \<le> xs ! argmax_from best bv j vs)
     \<and> (\<forall>i<argmax_from best bv j vs. xs ! i < xs ! argmax_from best bv j vs)"
  using assms
proof (induction vs arbitrary: best bv j)
  case Nil
  then have "j = length xs" by simp
  with Nil show ?case by simp
next
  case (Cons v vs)
  from Cons.prems(1) have j: "j < length xs"
    by (cases "j < length xs") simp_all
  from Cons.prems(1) j have v: "xs ! j = v" and rest: "drop (Suc j) xs = vs"
    by (simp_all add: Cons_nth_drop_Suc [symmetric])
  from j have le: "Suc j \<le> length xs" by simp
  show ?case
  proof (cases "bv < v")
    case True
    have a: "\<forall>i<Suc j. xs ! i \<le> v"
      using Cons.prems(5) True v by (auto simp: less_Suc_eq intro: less_imp_le le_less_trans)
    have b: "\<forall>i<j. xs ! i < v"
      using Cons.prems(5) True by (auto intro: le_less_trans)
    from Cons.IH [OF rest le lessI v [symmetric] a b] True show ?thesis by simp
  next
    case False
    have a: "\<forall>i<Suc j. xs ! i \<le> bv"
      using Cons.prems(5) False v by (auto simp: less_Suc_eq)
    have c: "best < Suc j" using Cons.prems(3) by simp
    from Cons.IH [OF rest le c Cons.prems(4) a Cons.prems(6)] False show ?thesis by simp
  qed
qed

lemma argmax_first_max:
  assumes "argmax xs = Inr r"
  shows "r < length xs \<and> (\<forall>i<length xs. xs ! i \<le> xs ! r) \<and> (\<forall>i<r. xs ! i < xs ! r)"
proof (cases xs)
  case Nil
  with assms show ?thesis by (simp add: argmax_def)
next
  case (Cons v rest)
  have "argmax_from 0 v 1 rest < length xs
     \<and> (\<forall>i<length xs. xs ! i \<le> xs ! argmax_from 0 v 1 rest)
     \<and> (\<forall>i<argmax_from 0 v 1 rest. xs ! i < xs ! argmax_from 0 v 1 rest)"
    by (rule argmax_from_first_max) (simp_all add: Cons)
  with assms Cons show ?thesis by (simp add: argmax_def)
qed

lemma decode_cell_result:
  "decode_cell s =
     (case output_var s of
        [] \<Rightarrow> Raised IndexError s
      | lg # rest \<Rightarrow>
          (case argmax_last_dim lg of
             Inl e \<Rightarrow> Raised e (s\<lparr>logits_var := Some lg\<rparr>)
           | Inr ids \<Rightarrow>
               Done (s\<lparr>logits_var := Some lg, predicted_ids_var := Some ids,
                       transcription_var := Some (batch_decode s ids)\<rparr>)))"
  by (simp add: decode_cell_def Let_def split: list.splits sum.splits)

text \<open>
  Claim C7. Two runs of the decode cell on identical model output, with the same
  tokenizer, end the same way, and when they complete they leave the same
  transcription, whatever the names \<open>logits\<close>, \<open>predicted_ids\<close> and \<open>transcription\<close> held
  before each run.
\<close>

theorem greedy_decode_deterministic:
  assumes "output_var s1 = output_var s2" and "batch_decode s1 = batch_decode s2"
  shows "raised (decode_cell s1) = raised (decode_cell s2)
     \<and> (raised (decode_cell s1) = None \<longrightarrow>
          transcription_var (final_state (decode_cell s1))
            = transcription_var (final_state (decode_cell s2))
          \<and> transcription_var (final_state (decode_cell s1)) \<noteq> None)"
  using assms
  by (simp add: decode_cell_result split: list.splits sum.splits)

theorem greedy_decode_deterministic_witness:
  "raised (decode_cell (decoder_with [[[1, 5, 5], [0, - 1, - 2]], [[2, 2, 3], [1, 1, 1]]] None)) = None
   \<and> transcription_var (final_state
        (decode_cell (decoder_with [[[1, 5, 5], [0, - 1, - 2]], [[2, 2, 3], [1, 1, 1]]]
           (Some [''stale'']))))
     = transcription_var (final_state
        (decode_cell (decoder_with [[[1, 5, 5], [0, - 1, - 2]], [[2, 2, 3], [1, 1, 1]]] None)))
   \<and> transcription_var (final_state
        (decode_cell (decoder_with [[[1, 5, 5], [0, - 1, - 2]], [[2, 2, 3], [1, 1, 1]]] None)))
     = Some [''ba'', ''ca'']"
proof -
  let ?lg = "[[[1, 5, 5], [0, - 1, - 2]], [[2, 2, 3], [1, 1, 1 :: rat]]]"
  have o: "output_var (decoder_with ?lg None) = output_var (decoder_with ?lg (Some [''stale'']))"
    and b: "batch_decode (decoder_with ?lg None) = batch_decode (decoder_with ?lg (Some [''stale'']))"
    by (simp_all add: decoder_with_def)
  have r: "raised (decode_cell (decoder_with ?lg None)) = None"
    and t: "transcription_var (final_state (decode_cell (decoder_with ?lg None))) = Some [''ba'', ''ca'']"
    by code_simp+
  from greedy_decode_deterministic [OF o b] r t show ?thesis by simp
qed

section \<open>Properties of the device release\<close>

text \<open>
  The guarded release of the speech notebook: it calls \<^verbatim>\<open>detachFromDevice\<close> only on an
  attached session, never raises, leaves the session detached, and does nothing at all
  when the session is not attached.
\<close>

lemma detach_step_guarded:
  "detach_calls (final_state (detach_step r))
     = detach_calls r @ (if attached r then [True] else [])"
  "raised (detach_step r) = None"
  "\<not> attached (final_state (detach_step r))"
  "\<not> attached r \<Longrightarrow> detach_step r = Done r"
  by (simp_all add: detach_step_def isAttachedToDevice_def detachFromDevice_def Let_def)

text \<open>
  Claim C3 does not hold of the NER notebook, whose release cells call
  \<^verbatim>\<open>detachFromDevice\<close> without the query. On a session that is not attached the call is
  made all the same and raises, where the guarded cell of the speech notebook does
  nothing; this is what happens when a release cell of the NER notebook runs a second
  time.
\<close>

theorem ner_detach_unguarded:
  "raised (ner_detach_step \<lparr>attached = False, detach_calls = []\<rparr>) = Some RuntimeError
   \<and> detach_calls (final_state (ner_detach_step \<lparr>attached = False, detach_calls = []\<rparr>)) = [False]
   \<and> detach_step \<lparr>attached = False, detach_calls = []\<rparr> = Done \<lparr>attached = False, detach_calls = []\<rparr>
   \<and> ner_detach_step \<lparr>attached = True, detach_calls = []\<rparr>
       = Done \<lparr>attached = False, detach_calls = [True]\<rparr>
   \<and> ner_detach_step (final_state (ner_detach_step \<lparr>attached = True, detach_calls = []\<rparr>))
       = Raised RuntimeError \<lparr>attached = False, detach_calls = [True, False]\<rparr>"
  by (simp add: ner_detach_step_def detach_step_def isAttachedToDevice_def
      detachFromDevice_def Let_def)


end
